theory Spec2Isabelle
  imports Complex_Main
begin

section \<open>Numbers\<close>

text \<open>
  Bucket counts and percentiles are Python and numpy numbers. They are modelled by their
  exact value: a rational, or one of the three special values of floating-point
  arithmetic that the code produces and consumes (\<open>float('nan')\<close>, the quotient of a
  numpy division by zero, the \<open>NaN\<close> that pandas stores for a missing label).
  Rounding, signed zeros and the 64-bit range of numpy integers are not modelled.
\<close>

datatype pynum = Fin rat | PInf | NInf | NaN

fun fneg :: "pynum \<Rightarrow> pynum" where
  "fneg (Fin a) = Fin (- a)"
| "fneg PInf = NInf"
| "fneg NInf = PInf"
| "fneg NaN = NaN"

fun fadd :: "pynum \<Rightarrow> pynum \<Rightarrow> pynum" where
  "fadd NaN _ = NaN"
| "fadd _ NaN = NaN"
| "fadd (Fin a) (Fin b) = Fin (a + b)"
| "fadd PInf NInf = NaN"
| "fadd NInf PInf = NaN"
| "fadd PInf _ = PInf"
| "fadd _ PInf = PInf"
| "fadd NInf _ = NInf"
| "fadd _ NInf = NInf"

definition fsub :: "pynum \<Rightarrow> pynum \<Rightarrow> pynum" where
  "fsub a b = fadd a (fneg b)"

fun fsign :: "pynum \<Rightarrow> int" where
  "fsign (Fin a) = (if a < 0 then - 1 else if a = 0 then 0 else 1)"
| "fsign PInf = 1"
| "fsign NInf = - 1"
| "fsign NaN = 0"

fun fmul :: "pynum \<Rightarrow> pynum \<Rightarrow> pynum" where
  "fmul NaN _ = NaN"
| "fmul _ NaN = NaN"
| "fmul (Fin a) (Fin b) = Fin (a * b)"
| "fmul a b =
     (let s = fsign a * fsign b
      in if s = 0 then NaN else if 0 < s then PInf else NInf)"

text \<open>
  numpy division: a zero divisor gives \<open>nan\<close> for \<open>0/0\<close> and a signed infinity
  otherwise (with a warning, not an exception).
\<close>

fun fdiv :: "pynum \<Rightarrow> pynum \<Rightarrow> pynum" where
  "fdiv NaN _ = NaN"
| "fdiv _ NaN = NaN"
| "fdiv (Fin a) (Fin b) =
     (if b \<noteq> 0 then Fin (a / b)
      else if a = 0 then NaN else if 0 < a then PInf else NInf)"
| "fdiv (Fin a) _ = Fin 0"
| "fdiv a (Fin b) = (if 0 \<le> b then a else fneg a)"
| "fdiv _ _ = NaN"

text \<open>Comparisons: every comparison with \<open>NaN\<close> is false.\<close>

fun fle :: "pynum \<Rightarrow> pynum \<Rightarrow> bool" where
  "fle NaN _ = False"
| "fle _ NaN = False"
| "fle (Fin a) (Fin b) = (a \<le> b)"
| "fle NInf _ = True"
| "fle _ PInf = True"
| "fle _ _ = False"


section \<open>pandas Series\<close>

text \<open>
  A Series is its index (the labels, here integers) paired with its values, in order.
\<close>

type_synonym series = "(int \<times> pynum) list"

datatype error = AssertionError | KeyError | IndexError | ValueError

definition index_of :: "series \<Rightarrow> int list" where
  "index_of s = map fst s"

definition values_of :: "series \<Rightarrow> pynum list" where
  "values_of s = map snd s"

text \<open>
  \<open>pd.Series(values, index=index)\<close> for a list or array: aligned by position, and
  refused when the lengths differ (pandas releases of the time of the code repeat a
  single value over the index instead; nothing below depends on that case).
\<close>

definition Series_of_list :: "pynum list \<Rightarrow> int list \<Rightarrow> error + series" where
  "Series_of_list vs index =
     (if length vs = length index then Inr (zip index vs) else Inl ValueError)"

text \<open>The value a reindexed Series has at a label: \<open>NaN\<close> when the label is missing.\<close>

definition at_label :: "(int \<rightharpoonup> pynum) \<Rightarrow> int \<Rightarrow> pynum" where
  "at_label m r = (case m r of None \<Rightarrow> NaN | Some v \<Rightarrow> v)"

text \<open>\<open>pd.Series(d, index=index)\<close> for a dict: aligned by label.\<close>

definition Series_of_dict :: "(int \<rightharpoonup> pynum) \<Rightarrow> int list \<Rightarrow> series" where
  "Series_of_dict d index = map (\<lambda>r. (r, at_label d r)) index"

text \<open>
  \<open>pd.Series(s, index=index)\<close> for a Series: reindexed by label; pandas refuses to
  reindex a Series whose own labels repeat.
\<close>

definition Series_of_series :: "series \<Rightarrow> int list \<Rightarrow> error + series" where
  "Series_of_series s index =
     (if index_of s = index then Inr s
      else if distinct (index_of s) then Inr (Series_of_dict (map_of s) index)
      else Inl ValueError)"

definition fillna :: "pynum \<Rightarrow> series \<Rightarrow> series" where
  "fillna c s = map (\<lambda>(r, v). (r, if v = NaN then c else v)) s"

text \<open>
  \<open>Series.sum()\<close> skips \<open>NaN\<close> entries (what it returns when every entry is \<open>NaN\<close>
  varies between pandas releases; nothing below depends on that case).
\<close>

definition series_sum :: "pynum list \<Rightarrow> pynum" where
  "series_sum vs = foldl fadd (Fin 0) (filter (\<lambda>v. v \<noteq> NaN) vs)"

text \<open>
  \<open>a + b\<close> on two Series: elementwise when the indexes are the same; otherwise the
  operands are aligned on the sorted union of their labels, a label missing on one side
  giving \<open>NaN\<close>.
\<close>

definition series_add :: "series \<Rightarrow> series \<Rightarrow> error + series" where
  "series_add a b =
     (if index_of a = index_of b
      then Inr (map (\<lambda>((r, x), (_, y)). (r, fadd x y)) (zip a b))
      else if distinct (index_of a) \<and> distinct (index_of b)
      then Inr (map (\<lambda>r. (r, fadd (at_label (map_of a) r) (at_label (map_of b) r)))
                  (sort (remdups (index_of a @ index_of b))))
      else Inl ValueError)"



section \<open>Casting keys with int()\<close>

definition is_space :: "char \<Rightarrow> bool" where
  "is_space c = (c \<in> set [CHR '' '', CHR 0x09, CHR 0x0A, CHR 0x0B, CHR 0x0C, CHR 0x0D])"

definition is_digit :: "char \<Rightarrow> bool" where
  "is_digit c = (c \<in> set ''0123456789'')"

definition strip :: "string \<Rightarrow> string" where
  "strip s = rev (dropWhile is_space (rev (dropWhile is_space s)))"

definition digits_value :: "string \<Rightarrow> int" where
  "digits_value ds = foldl (\<lambda>acc c. 10 * acc + (int (of_char c) - 48)) 0 ds"

definition digits_int :: "string \<Rightarrow> int option" where
  "digits_int ds = (if ds \<noteq> [] \<and> list_all is_digit ds then Some (digits_value ds) else None)"

text \<open>
  \<open>int(k)\<close> on a string: surrounding whitespace, an optional sign, decimal digits;
  \<open>None\<close> where Python raises \<open>ValueError\<close>.
\<close>

definition python_int :: "string \<Rightarrow> int option" where
  "python_int k =
     (case strip k of
        [] \<Rightarrow> None
      | c # cs \<Rightarrow>
          if c = CHR ''-'' then map_option uminus (digits_int cs)
          else if c = CHR ''+'' then digits_int cs
          else digits_int (c # cs))"

section \<open>The Histogram class\<close>

text \<open>
  What the class reads from \<open>histogram_tools.Histogram\<close>: \<open>kind()\<close>, \<open>n_buckets()\<close>
  and \<open>ranges()\<close>. Resolving a name is a parameter \<open>fetch\<close> of the model:
  \<open>fetch revision nm\<close> is the definition that \<open>histogram_tools.Histogram\<close> builds from
  the entry of \<open>nm\<close> in the table that \<open>_fetch_histograms_definition(revision)\<close>
  returns, and \<open>None\<close> when the table has no such entry (a \<open>KeyError\<close>).
\<close>

record hist_definition =
  d_kind :: string
  n_buckets :: nat
  ranges :: "int list"

record histogram =
  hdefinition :: hist_definition
  kind :: string
  name :: string
  buckets :: series

text \<open>
  The \<open>instance\<close> argument: a list, a numpy array, a Series, or a mapping whose
  \<open>values\<close> entry (if it has one) maps string keys to counts, in iteration order.
\<close>

datatype py_instance =
    PyList "pynum list"
  | NdArray "pynum list"
  | PdSeries series
  | PyDict "(string \<times> pynum) list option"

definition default_revision :: string where
  "default_revision = ''https://hg.mozilla.org/mozilla-central/rev/tip''"

text \<open>\<open>re.sub("^STARTUP_", "", name)\<close>\<close>

definition strip_startup :: "string \<Rightarrow> string" where
  "strip_startup nm =
     (if take 8 nm = ''STARTUP_'' then drop 8 nm else nm)"

text \<open>\<open>xs[:-5]\<close>\<close>

definition drop_last5 :: "'a list \<Rightarrow> 'a list" where
  "drop_last5 xs = take (length xs - 5) xs"

text \<open>
  \<open>{int(k): v for k, v in instance["values"].items()}\<close>: the first key that does not
  cast raises; a later entry replaces an earlier one with the same integer key.
\<close>

fun cast_entries :: "(string \<times> pynum) list \<Rightarrow> (int \<rightharpoonup> pynum) \<Rightarrow> error + (int \<rightharpoonup> pynum)" where
  "cast_entries [] m = Inr m"
| "cast_entries ((k, v) # kvs) m =
     (case python_int k of
        None \<Rightarrow> Inl ValueError
      | Some i \<Rightarrow> cast_entries kvs (m(i \<mapsto> v)))"

text \<open>The buckets that \<open>__init__\<close> builds from the definition and the instance.\<close>

definition make_buckets :: "hist_definition \<Rightarrow> py_instance \<Rightarrow> error + series" where
  "make_buckets d inst =
     (case inst of
        PyList xs \<Rightarrow>
          Series_of_list (if length xs = n_buckets d then xs else drop_last5 xs) (ranges d)
      | NdArray xs \<Rightarrow>
          Series_of_list (if length xs = n_buckets d then xs else drop_last5 xs) (ranges d)
      | PdSeries s \<Rightarrow>
          Series_of_series (if length s = n_buckets d then s else drop_last5 s) (ranges d)
      | PyDict None \<Rightarrow> Inl KeyError
      | PyDict (Some items) \<Rightarrow>
          (case cast_entries items Map.empty of
             Inl e \<Rightarrow> Inl e
           | Inr entries \<Rightarrow> Inr (fillna (Fin 0) (Series_of_dict entries (ranges d)))))"

definition Histogram_init ::
  "(string \<Rightarrow> string \<rightharpoonup> hist_definition) \<Rightarrow> string \<Rightarrow> py_instance \<Rightarrow> string \<Rightarrow> error + histogram" where
  "Histogram_init fetch nm inst revision =
     (let histograms_definition = fetch revision;
          histogram_name = strip_startup nm
      in case histograms_definition histogram_name of
           None \<Rightarrow> Inl KeyError
         | Some d \<Rightarrow>
             (case make_buckets d inst of
                Inl e \<Rightarrow> Inl e
              | Inr b \<Rightarrow> Inr \<lparr>hdefinition = d, kind = d_kind d, name = nm, buckets = b\<rparr>))"

definition percentile_kinds :: "string list" where
  "percentile_kinds = [''exponential'', ''linear'', ''enumerated'', ''boolean'']"

text \<open>
  The loop of \<open>percentile\<close>: the bucket position and the remaining count at the
  \<open>break\<close>, or the last position once the range is exhausted (position 0, the initial
  value, when there is no bucket at all).
\<close>

fun walk :: "nat \<Rightarrow> pynum list \<Rightarrow> pynum \<Rightarrow> nat \<times> pynum" where
  "walk i [] to_count = (i - 1, to_count)"
| "walk i (freq # rest) to_count =
     (if fle (fsub to_count freq) (Fin 0) then (i, to_count)
      else walk (Suc i) rest (fsub to_count freq))"

definition percentile :: "histogram \<Rightarrow> pynum \<Rightarrow> error + pynum" where
  "percentile h p =
     (if \<not> (fle (Fin 0) p \<and> fle p (Fin 100)) then Inl AssertionError
      else if kind h \<notin> set percentile_kinds then Inl AssertionError
      else
        let vals = values_of (buckets h);
            idx = index_of (buckets h);
            fraction = fdiv p (Fin 100);
            (percentile_bucket, to_count) = walk 0 vals (fmul fraction (series_sum vals))
        in if int percentile_bucket = int (length vals) - 1 then Inr NaN
           else if length vals \<le> percentile_bucket then Inl IndexError
           else
             let percentile_frequency = vals ! percentile_bucket;
                 percentile_lower_boundary = idx ! percentile_bucket;
                 width = idx ! (percentile_bucket + 1) - idx ! percentile_bucket
             in Inr (fadd (Fin (of_int percentile_lower_boundary))
                      (fdiv (fmul (Fin (of_int width)) to_count) percentile_frequency)))"


definition Histogram_add ::
  "(string \<Rightarrow> string \<rightharpoonup> hist_definition) \<Rightarrow> histogram \<Rightarrow> histogram \<Rightarrow> error + histogram" where
  "Histogram_add fetch self other =
     (case series_add (buckets self) (buckets other) of
        Inl e \<Rightarrow> Inl e
      | Inr s \<Rightarrow> Histogram_init fetch (name self) (PdSeries s) default_revision)"

section \<open>Well-formed definitions and histograms\<close>

text \<open>
  Modelled from the spec: the invariants of a definition (\<open>histogram_tools\<close>, which
  builds the definitions, is not among the sources): as many boundaries as buckets,
  strictly increasing. A histogram built from a definition carries its kind and has its
  boundaries as the index of its buckets.
\<close>

definition wf_definition :: "hist_definition \<Rightarrow> bool" where
  "wf_definition d = (length (ranges d) = n_buckets d \<and> sorted_wrt (<) (ranges d))"

definition wf_histogram :: "histogram \<Rightarrow> bool" where
  "wf_histogram h =
     (wf_definition (hdefinition h) \<and> kind h = d_kind (hdefinition h)
      \<and> index_of (buckets h) = ranges (hdefinition h))"


text \<open>The number of values of a dense input, and the dense input cut to its first values.\<close>

fun dense_values :: "py_instance \<Rightarrow> nat option" where
  "dense_values (PyList xs) = Some (length xs)"
| "dense_values (NdArray xs) = Some (length xs)"
| "dense_values (PdSeries s) = Some (length s)"
| "dense_values (PyDict _) = None"

fun dense_prefix :: "nat \<Rightarrow> py_instance \<Rightarrow> py_instance" where
  "dense_prefix n (PyList xs) = PyList (take n xs)"
| "dense_prefix n (NdArray xs) = NdArray (take n xs)"
| "dense_prefix n (PdSeries s) = PdSeries (take n s)"
| "dense_prefix n (PyDict m) = PyDict m"

section \<open>The percentile walk as the specification words it\<close>

text \<open>
  The remaining target on reaching bucket \<open>j\<close>: the target less the frequencies of the
  buckets before it. Bucket \<open>i\<close> is the stopping bucket when it is the first one whose
  frequency brings the remaining target to zero or below.
\<close>

definition remaining :: "pynum list \<Rightarrow> pynum \<Rightarrow> nat \<Rightarrow> pynum" where
  "remaining vals target j = foldl fsub target (take j vals)"

definition stop_test :: "pynum list \<Rightarrow> pynum \<Rightarrow> nat \<Rightarrow> bool" where
  "stop_test vals target j = fle (fsub (remaining vals target j) (vals ! j)) (Fin 0)"

definition stops_at :: "pynum list \<Rightarrow> pynum \<Rightarrow> nat \<Rightarrow> bool" where
  "stops_at vals target i =
     (i < length vals \<and> stop_test vals target i \<and> (\<forall>j<i. \<not> stop_test vals target j))"

definition target_count :: "histogram \<Rightarrow> pynum \<Rightarrow> pynum" where
  "target_count h p = fmul (fdiv p (Fin 100)) (series_sum (values_of (buckets h)))"

section \<open>Example definitions\<close>

definition d_exponential4 :: hist_definition where
  "d_exponential4 = \<lparr>d_kind = ''exponential'', n_buckets = 4, ranges = [0, 1, 3, 7]\<rparr>"

definition d_linear3 :: hist_definition where
  "d_linear3 = \<lparr>d_kind = ''linear'', n_buckets = 3, ranges = [0, 1, 2]\<rparr>"

definition d_count :: hist_definition where
  "d_count = \<lparr>d_kind = ''count'', n_buckets = 3, ranges = [0, 1, 2]\<rparr>"

definition d_flag :: hist_definition where
  "d_flag = \<lparr>d_kind = ''flag'', n_buckets = 3, ranges = [0, 1, 2]\<rparr>"

text \<open>A table of definitions that is the same at every revision.\<close>

definition fetch_fixed :: "string \<Rightarrow> string \<rightharpoonup> hist_definition" where
  "fetch_fixed revision =
     [''GC_MS'' \<mapsto> d_exponential4, ''LINEAR'' \<mapsto> d_linear3,
      ''COUNT'' \<mapsto> d_count, ''FLAG'' \<mapsto> d_flag]"

text \<open>
  A table in which the boundaries of \<open>GC_MS\<close> at the default revision differ from those
  at every other revision.
\<close>

definition d_exponential4_tip :: hist_definition where
  "d_exponential4_tip = \<lparr>d_kind = ''exponential'', n_buckets = 4, ranges = [0, 1, 2, 4]\<rparr>"

definition fetch_changed :: "string \<Rightarrow> string \<rightharpoonup> hist_definition" where
  "fetch_changed revision =
     (if revision = default_revision then [''GC_MS'' \<mapsto> d_exponential4_tip]
      else [''GC_MS'' \<mapsto> d_exponential4])"

definition h_linear3 :: "pynum list \<Rightarrow> histogram" where
  "h_linear3 counts =
     \<lparr>hdefinition = d_linear3, kind = ''linear'', name = ''LINEAR'',
      buckets = zip [0, 1, 2] counts\<rparr>"

definition h_sum :: histogram where
  "h_sum = \<lparr>hdefinition = d_linear3, kind = ''linear'', name = ''LINEAR'',
      buckets = [(0, Fin 2), (1, Fin 4), (2, Fin 0)]\<rparr>"

section \<open>Sparse inputs: the count that a boundary receives\<close>

text \<open>
  The items of the input with their keys cast, and the count that the bucket with the
  boundary \<open>r\<close> receives: that of the last item whose key casts to \<open>r\<close>, and 0 when
  there is none or when it is \<open>NaN\<close>.
\<close>

definition int_keys :: "(string \<times> pynum) list \<Rightarrow> (int option \<times> pynum) list" where
  "int_keys items = map (\<lambda>(k, v). (python_int k, v)) items"

definition sparse_count :: "(string \<times> pynum) list \<Rightarrow> int \<Rightarrow> pynum" where
  "sparse_count items r =
     (case map_of (rev (int_keys items)) (Some r) of
        None \<Rightarrow> Fin 0
      | Some v \<Rightarrow> if v = NaN then Fin 0 else v)"

section \<open>Construction: the index of the buckets\<close>

lemma index_of_Series_of_dict: "index_of (Series_of_dict m idx) = idx"
  by (simp add: index_of_def Series_of_dict_def comp_def)

lemma index_of_fillna: "index_of (fillna c s) = index_of s"
  by (induction s) (auto simp: index_of_def fillna_def)

lemma index_of_Series_of_list: "Series_of_list vs idx = Inr s \<Longrightarrow> index_of s = idx"
  by (auto simp: Series_of_list_def index_of_def split: if_splits)

lemma index_of_Series_of_series: "Series_of_series s0 idx = Inr s \<Longrightarrow> index_of s = idx"
  by (auto simp: Series_of_series_def index_of_Series_of_dict split: if_splits)

lemma index_of_make_buckets: "make_buckets d inst = Inr s \<Longrightarrow> index_of s = ranges d"
  by (cases inst)
     (auto simp: make_buckets_def index_of_fillna index_of_Series_of_dict
           dest: index_of_Series_of_list index_of_Series_of_series
           split: option.splits sum.splits)

lemma Histogram_init_Inr:
  "Histogram_init fetch nm inst revision = Inr h \<Longrightarrow>
   \<exists>d. fetch revision (strip_startup nm) = Some d \<and> hdefinition h = d \<and> kind h = d_kind d
      \<and> name h = nm \<and> make_buckets d inst = Inr (buckets h)"
  by (auto simp: Histogram_init_def split: option.splits sum.splits)

lemma Histogram_init_Some:
  "fetch revision (strip_startup nm) = Some d \<Longrightarrow>
   Histogram_init fetch nm inst revision =
     (case make_buckets d inst of
        Inl e \<Rightarrow> Inl e
      | Inr b \<Rightarrow> Inr \<lparr>hdefinition = d, kind = d_kind d, name = nm, buckets = b\<rparr>)"
  by (simp add: Histogram_init_def)

lemma Histogram_add_Inr:
  "Histogram_add fetch a b = Inr h \<Longrightarrow>
   \<exists>s. series_add (buckets a) (buckets b) = Inr s
      \<and> Histogram_init fetch (name a) (PdSeries s) default_revision = Inr h"
  by (auto simp: Histogram_add_def split: sum.splits)

lemma length_index_of: "length (index_of s) = length s"
  by (simp add: index_of_def)

lemma Histogram_init_wf:
  assumes "Histogram_init fetch nm inst revision = Inr h" and "wf_definition (hdefinition h)"
  shows "wf_histogram h"
  using Histogram_init_Inr [OF assms(1)] index_of_make_buckets assms(2)
  by (auto simp: wf_histogram_def)

lemma drop_last5_plus5: "length xs = n + 5 \<Longrightarrow> drop_last5 xs = take n xs"
  by (simp add: drop_last5_def)

lemmas example_defs =
  fetch_fixed_def fetch_changed_def d_exponential4_def d_exponential4_tip_def d_linear3_def
  d_count_def d_flag_def strip_startup_def default_revision_def

lemma add_example:
  "Histogram_add fetch_fixed (h_linear3 [Fin 1, Fin 2, Fin 0]) (h_linear3 [Fin 1, Fin 2, Fin 0])
     = Inr h_sum"
  by (simp add: Histogram_add_def Histogram_init_def make_buckets_def series_add_def
      Series_of_series_def index_of_def h_linear3_def h_sum_def example_defs)

section \<open>Claims about construction\<close>

text \<open>
  C8. Every histogram that \<open>Histogram_init\<close> returns, and so every result of \<open>+\<close>
  (\<open>Histogram_add\<close> ends in \<open>Histogram_init\<close>), has the boundaries of its definition as
  the keys of its buckets, in the same order, and as many buckets as the definition has
  boundaries; with a definition whose \<open>n_buckets\<close> is the number of its boundaries, that
  number is \<open>n_buckets\<close>. The other operations return values and leave the histogram as
  it is.
\<close>

theorem buckets_match_definition:
  assumes "Histogram_init fetch nm inst revision = Inr h \<or> Histogram_add fetch a b = Inr h"
      and "length (ranges (hdefinition h)) = n_buckets (hdefinition h)"
  shows "length (buckets h) = n_buckets (hdefinition h)
       \<and> index_of (buckets h) = ranges (hdefinition h)"
proof -
  from assms(1) obtain nm' inst' rev' where "Histogram_init fetch nm' inst' rev' = Inr h"
    using Histogram_add_Inr by blast
  then have idx: "index_of (buckets h) = ranges (hdefinition h)"
    using Histogram_init_Inr index_of_make_buckets by blast
  then have "length (buckets h) = length (ranges (hdefinition h))"
    using length_index_of [of "buckets h"] by simp
  with assms(2) idx show ?thesis by simp
qed

theorem buckets_match_definition_witness:
  "length (buckets h_sum) = n_buckets (hdefinition h_sum)
       \<and> index_of (buckets h_sum) = ranges (hdefinition h_sum)"
  using buckets_match_definition [of fetch_fixed "''LINEAR''" "PyList []" "''r''" h_sum
      "h_linear3 [Fin 1, Fin 2, Fin 0]" "h_linear3 [Fin 1, Fin 2, Fin 0]"] add_example
  by (simp add: h_sum_def d_linear3_def)

text \<open>
  C3. A dense input (list, array or Series) with \<open>n_buckets + 5\<close> values gives the same
  result as its first \<open>n_buckets\<close> values alone; for a list or an array and a definition
  with \<open>n_buckets\<close> boundaries that result is the histogram whose counts are those first
  values, aligned with the boundaries by position.
\<close>

theorem dense_trailing_five_discarded:
  assumes "fetch revision (strip_startup nm) = Some d"
      and "dense_values inst = Some (n_buckets d + 5)"
  shows "Histogram_init fetch nm inst revision
           = Histogram_init fetch nm (dense_prefix (n_buckets d) inst) revision
       \<and> (length (ranges d) = n_buckets d \<longrightarrow>
            (\<forall>xs. inst = PyList xs \<or> inst = NdArray xs \<longrightarrow>
               Histogram_init fetch nm inst revision
                 = Inr \<lparr>hdefinition = d, kind = d_kind d, name = nm,
                        buckets = zip (ranges d) (take (n_buckets d) xs)\<rparr>))"
proof -
  have "make_buckets d inst = make_buckets d (dense_prefix (n_buckets d) inst)"
    using assms(2) by (cases inst) (auto simp: make_buckets_def drop_last5_plus5)
  moreover have "make_buckets d inst = Inr (zip (ranges d) (take (n_buckets d) xs))"
    if "length (ranges d) = n_buckets d" "inst = PyList xs \<or> inst = NdArray xs" for xs
    using that assms(2) by (auto simp: make_buckets_def drop_last5_plus5 Series_of_list_def)
  ultimately show ?thesis
    using assms(1) by (simp add: Histogram_init_Some)
qed

theorem dense_trailing_five_discarded_witness:
  "Histogram_init fetch_fixed ''STARTUP_LINEAR''
      (PyList [Fin 0, Fin 1, Fin 0, Fin 1, Fin (3/4), Fin (1/2), Fin (- 1), Fin (- 1)]) ''r''
    = Histogram_init fetch_fixed ''STARTUP_LINEAR'' (PyList [Fin 0, Fin 1, Fin 0]) ''r''
   \<and> Histogram_init fetch_fixed ''STARTUP_LINEAR''
      (PyList [Fin 0, Fin 1, Fin 0, Fin 1, Fin (3/4), Fin (1/2), Fin (- 1), Fin (- 1)]) ''r''
    = Inr \<lparr>hdefinition = d_linear3, kind = ''linear'', name = ''STARTUP_LINEAR'',
           buckets = [(0, Fin 0), (1, Fin 1), (2, Fin 0)]\<rparr>"
  using dense_trailing_five_discarded [of fetch_fixed "''r''" "''STARTUP_LINEAR''" d_linear3
      "PyList [Fin 0, Fin 1, Fin 0, Fin 1, Fin (3/4), Fin (1/2), Fin (- 1), Fin (- 1)]"]
  by (auto simp: example_defs)

section \<open>Claims about get_value\<close>









section \<open>Claims about sparse inputs\<close>

lemma int_keys_Cons: "int_keys ((k, v) # items) = (python_int k, v) # int_keys items"
  by (simp add: int_keys_def)

lemma map_of_rev_Cons:
  "map_of (rev ((a, v) # xs)) b =
     (case map_of (rev xs) b of None \<Rightarrow> (if a = b then Some v else None) | Some w \<Rightarrow> Some w)"
  by (simp add: map_add_def split: option.splits)

lemma cast_entries_lookup:
  assumes "\<forall>(k, v) \<in> set items. python_int k \<noteq> None"
  shows "\<exists>e. cast_entries items m = Inr e
           \<and> (\<forall>r. e r = (case map_of (rev (int_keys items)) (Some r) of
                          None \<Rightarrow> m r | Some v \<Rightarrow> Some v))"
  using assms
proof (induction items arbitrary: m)
  case Nil
  then show ?case by (simp add: int_keys_def)
next
  case (Cons kv items)
  obtain k v where kv: "kv = (k, v)" by (cases kv)
  with Cons.prems obtain i where i: "python_int k = Some i" by auto
  from Cons.prems have "\<forall>(k, v) \<in> set items. python_int k \<noteq> None" by simp
  from Cons.IH [OF this, of "m(i \<mapsto> v)"] obtain e where
    e: "cast_entries items (m(i \<mapsto> v)) = Inr e"
       "\<And>r. e r = (case map_of (rev (int_keys items)) (Some r) of
                          None \<Rightarrow> (m(i \<mapsto> v)) r | Some v \<Rightarrow> Some v)"
    by blast
  have "cast_entries (kv # items) m = Inr e" using kv i e(1) by simp
  moreover have "e r = (case map_of (rev (int_keys (kv # items))) (Some r) of
                          None \<Rightarrow> m r | Some v \<Rightarrow> Some v)" for r
    unfolding kv int_keys_Cons map_of_rev_Cons e(2) [of r] i
    by (cases "map_of (rev (int_keys items)) (Some r)") simp_all
  ultimately show ?case by blast
qed


lemma make_buckets_sparse:
  assumes "\<forall>(k, v) \<in> set items. python_int k \<noteq> None"
  shows "make_buckets d (PyDict (Some items)) = Inr (map (\<lambda>r. (r, sparse_count items r)) (ranges d))"
proof -
  from cast_entries_lookup [OF assms, of Map.empty] obtain e where
    e: "cast_entries items Map.empty = Inr e"
       "\<And>r. e r = (case map_of (rev (int_keys items)) (Some r) of
                          None \<Rightarrow> None | Some v \<Rightarrow> Some v)"
    by blast
  have "(if at_label e r = NaN then Fin 0 else at_label e r) = sparse_count items r" for r
    unfolding at_label_def sparse_count_def e(2) [of r]
    by (cases "map_of (rev (int_keys items)) (Some r)") simp_all
  then have "fillna (Fin 0) (Series_of_dict e (ranges d))
               = map (\<lambda>r. (r, sparse_count items r)) (ranges d)"
    by (simp add: fillna_def Series_of_dict_def)
  with e(1) show ?thesis by (simp add: make_buckets_def)
qed

lemma map_of_tabulated: "r \<in> set idx \<Longrightarrow> map_of (map (\<lambda>r. (r, f r)) idx) r = Some (f r)"
  by (induction idx) auto

lemma sparse_count_absent:
  "Some r \<notin> python_int ` fst ` set items \<Longrightarrow> sparse_count items r = Fin 0"
proof -
  assume "Some r \<notin> python_int ` fst ` set items"
  moreover have "fst ` set (rev (int_keys items)) = python_int ` fst ` set items"
    by (force simp: int_keys_def image_iff)
  ultimately have "map_of (rev (int_keys items)) (Some r) = None"
    by (simp add: map_of_eq_None_iff)
  then show ?thesis by (simp add: sparse_count_def)
qed

lemma sparse_count_present:
  assumes "distinct (map (python_int \<circ> fst) items)" "(k, v) \<in> set items"
      and "python_int k = Some r" "v \<noteq> NaN"
  shows "sparse_count items r = v"
proof -
  have "map fst (int_keys items) = map (python_int \<circ> fst) items"
    by (simp add: int_keys_def case_prod_beta comp_def)
  then have "distinct (map fst (rev (int_keys items)))"
    using assms(1) by (simp add: rev_map [symmetric])
  moreover have "(Some r, v) \<in> set (rev (int_keys items))"
    using assms(2,3) by (force simp: int_keys_def)
  ultimately have "map_of (rev (int_keys items)) (Some r) = Some v"
    by (rule map_of_is_SomeI)
  then show ?thesis using assms(4) by (simp add: sparse_count_def)
qed

lemma map_of_filter_other:
  "a \<noteq> b \<Longrightarrow> map_of (filter (\<lambda>kv. fst kv \<noteq> b) xs) a = map_of xs a"
  by (induction xs) auto

lemma sparse_count_filter:
  assumes "r \<noteq> i"
  shows "sparse_count (filter (\<lambda>(k, v). python_int k \<noteq> Some i) items) r = sparse_count items r"
proof -
  have "int_keys (filter (\<lambda>(k, v). python_int k \<noteq> Some i) items)
          = filter (\<lambda>kv. fst kv \<noteq> Some i) (int_keys items)"
    by (induction items) (auto simp: int_keys_def)
  then have "map_of (rev (int_keys (filter (\<lambda>(k, v). python_int k \<noteq> Some i) items))) (Some r)
          = map_of (rev (int_keys items)) (Some r)"
    using assms map_of_filter_other [of "Some r" "Some i" "rev (int_keys items)"]
    by (simp add: rev_filter)
  then show ?thesis by (simp add: sparse_count_def)
qed


lemma python_int_examples:
  "python_int ''0'' = Some 0" "python_int ''3'' = Some 3" "python_int ''5'' = Some 5"
  "python_int '' 7 '' = Some 7"
  by (simp_all add: python_int_def strip_def is_space_def digits_int_def is_digit_def
      digits_value_def)

text \<open>
  C2, as stated, fails: the integer that a key casts to is not a position in the
  boundaries. \<open>pd.Series(entries, index=ranges)\<close> aligns a dict by label, so the count
  of the key \<open>"3"\<close> goes to the bucket whose boundary is 3 (position 2 of the boundaries
  0, 1, 3, 7), not to the bucket at position 3.
\<close>

theorem sparse_by_position_counterexample:
  "python_int ''3'' = Some 3
   \<and> Histogram_init fetch_fixed ''GC_MS'' (PyDict (Some [(''3'', Fin 2)])) default_revision
       = Inr \<lparr>hdefinition = d_exponential4, kind = ''exponential'', name = ''GC_MS'',
              buckets = [(0, Fin 0), (1, Fin 0), (3, Fin 2), (7, Fin 0)]\<rparr>
   \<and> Histogram_init fetch_fixed ''GC_MS'' (PyDict (Some [(''3'', Fin 2)])) default_revision
       \<noteq> Inr \<lparr>hdefinition = d_exponential4, kind = ''exponential'', name = ''GC_MS'',
              buckets = [(0, Fin 0), (1, Fin 0), (3, Fin 0), (7, Fin 2)]\<rparr>"
  by (simp add: python_int_examples Histogram_init_def make_buckets_def fillna_def
      Series_of_dict_def at_label_def example_defs)

text \<open>
  C2, amended. For a sparse input whose keys all cast to integers, construction
  succeeds; the keys of the buckets are the boundaries; a boundary that no key casts to
  has count 0; and, the cast keys being distinct, a boundary that a key casts to has that
  key's count (a count that is a number), exactly.
\<close>

theorem sparse_counts_by_boundary:
  assumes "fetch revision (strip_startup nm) = Some d"
      and "\<forall>(k, v) \<in> set items. python_int k \<noteq> None"
  shows "\<exists>h. Histogram_init fetch nm (PyDict (Some items)) revision = Inr h
           \<and> index_of (buckets h) = ranges d
           \<and> (\<forall>r \<in> set (ranges d). Some r \<notin> python_int ` fst ` set items
                  \<longrightarrow> map_of (buckets h) r = Some (Fin 0))
           \<and> (distinct (map (python_int \<circ> fst) items)
                \<longrightarrow> (\<forall>(k, v) \<in> set items. \<forall>r \<in> set (ranges d).
                       python_int k = Some r \<and> v \<noteq> NaN \<longrightarrow> map_of (buckets h) r = Some v))"
proof -
  let ?b = "map (\<lambda>r. (r, sparse_count items r)) (ranges d)"
  let ?h = "\<lparr>hdefinition = d, kind = d_kind d, name = nm, buckets = ?b\<rparr>"
  have init: "Histogram_init fetch nm (PyDict (Some items)) revision = Inr ?h"
    using assms(1) make_buckets_sparse [OF assms(2), of d] by (simp add: Histogram_init_Some)
  have idx: "index_of ?b = ranges d"
    by (simp add: index_of_def comp_def)
  have absent: "map_of ?b r = Some (Fin 0)"
    if "r \<in> set (ranges d)" "Some r \<notin> python_int ` fst ` set items" for r
    using that by (simp add: map_of_tabulated sparse_count_absent)
  have present: "map_of ?b r = Some v"
    if "distinct (map (python_int \<circ> fst) items)" "(k, v) \<in> set items" "r \<in> set (ranges d)"
       "python_int k = Some r" "v \<noteq> NaN" for k v r
    using that by (simp add: map_of_tabulated sparse_count_present)
  from init idx absent present show ?thesis
    by (intro exI [of _ ?h]) (simp, blast)
qed

theorem sparse_counts_by_boundary_witness:
  "\<exists>h. Histogram_init fetch_fixed ''GC_MS'' (PyDict (Some [(''3'', Fin 2), (''0'', Fin 1)]))
          default_revision = Inr h
       \<and> index_of (buckets h) = [0, 1, 3, 7]
       \<and> map_of (buckets h) 0 = Some (Fin 1) \<and> map_of (buckets h) 1 = Some (Fin 0)
       \<and> map_of (buckets h) 3 = Some (Fin 2) \<and> map_of (buckets h) 7 = Some (Fin 0)"
  using sparse_counts_by_boundary [of fetch_fixed default_revision "''GC_MS''" d_exponential4
      "[(''3'', Fin 2), (''0'', Fin 1)]"]
  by (auto simp: python_int_examples example_defs)

text \<open>
  C10. For a sparse input whose keys all cast to integers, an integer \<open>i\<close> that is not
  a boundary changes nothing: construction succeeds, with the same result as for the
  input without the entries whose key casts to \<open>i\<close>; every boundary is a key of the
  buckets, and a boundary that no key casts to has count 0.
\<close>

theorem unmatched_key_dropped:
  assumes "fetch revision (strip_startup nm) = Some d"
      and "\<forall>(k, v) \<in> set items. python_int k \<noteq> None"
      and "i \<notin> set (ranges d)"
  shows "\<exists>h. Histogram_init fetch nm (PyDict (Some items)) revision = Inr h
           \<and> Histogram_init fetch nm
                (PyDict (Some (filter (\<lambda>(k, v). python_int k \<noteq> Some i) items))) revision = Inr h
           \<and> index_of (buckets h) = ranges d
           \<and> (\<forall>r \<in> set (ranges d). Some r \<notin> python_int ` fst ` set items
                  \<longrightarrow> map_of (buckets h) r = Some (Fin 0))"
proof -
  let ?items' = "filter (\<lambda>(k, v). python_int k \<noteq> Some i) items"
  let ?b = "map (\<lambda>r. (r, sparse_count items r)) (ranges d)"
  let ?h = "\<lparr>hdefinition = d, kind = d_kind d, name = nm, buckets = ?b\<rparr>"
  have init: "Histogram_init fetch nm (PyDict (Some items)) revision = Inr ?h"
    using assms(1) make_buckets_sparse [OF assms(2), of d] by (simp add: Histogram_init_Some)
  have "\<forall>(k, v) \<in> set ?items'. python_int k \<noteq> None"
    using assms(2) by auto
  from make_buckets_sparse [OF this, of d]
  have "make_buckets d (PyDict (Some ?items'))
          = Inr (map (\<lambda>r. (r, sparse_count ?items' r)) (ranges d))" .
  moreover have "sparse_count ?items' r = sparse_count items r" if "r \<in> set (ranges d)" for r
  proof -
    from that assms(3) have "r \<noteq> i" by blast
    then show ?thesis by (rule sparse_count_filter)
  qed
  then have "map (\<lambda>r. (r, sparse_count ?items' r)) (ranges d) = ?b"
    by simp
  ultimately have init': "Histogram_init fetch nm (PyDict (Some ?items')) revision = Inr ?h"
    using assms(1) by (simp add: Histogram_init_Some)
  have idx: "index_of ?b = ranges d"
    by (simp add: index_of_def comp_def)
  have absent: "map_of ?b r = Some (Fin 0)"
    if "r \<in> set (ranges d)" "Some r \<notin> python_int ` fst ` set items" for r
    using that by (simp add: map_of_tabulated sparse_count_absent)
  from init init' idx absent show ?thesis
    by (intro exI [of _ ?h]) simp
qed

theorem unmatched_key_dropped_witness:
  "\<exists>h. Histogram_init fetch_fixed ''GC_MS'' (PyDict (Some [(''3'', Fin 2), (''5'', Fin 9)]))
          default_revision = Inr h
       \<and> Histogram_init fetch_fixed ''GC_MS'' (PyDict (Some [(''3'', Fin 2)]))
          default_revision = Inr h
       \<and> index_of (buckets h) = [0, 1, 3, 7]
       \<and> map_of (buckets h) 0 = Some (Fin 0) \<and> map_of (buckets h) 1 = Some (Fin 0)
       \<and> map_of (buckets h) 7 = Some (Fin 0)"
  using unmatched_key_dropped [of fetch_fixed default_revision "''GC_MS''" d_exponential4
      "[(''3'', Fin 2), (''5'', Fin 9)]" 5]
  by (auto simp: python_int_examples example_defs)

section \<open>Claims about the combination\<close>






section \<open>Claims about percentile\<close>

lemma remaining_Cons: "remaining (f # rest) T (Suc j) = remaining rest (fsub T f) j"
  by (simp add: remaining_def)

lemma remaining_0: "remaining vals T 0 = T"
  by (simp add: remaining_def)

lemma stop_test_Cons_Suc: "stop_test (f # rest) T (Suc j) = stop_test rest (fsub T f) j"
  by (simp add: stop_test_def remaining_Cons)

lemma stop_test_Cons_0: "stop_test (f # rest) T 0 = fle (fsub T f) (Fin 0)"
  by (simp add: stop_test_def remaining_0)

lemma stops_at_Cons_0: "stops_at (f # rest) T 0 = fle (fsub T f) (Fin 0)"
  by (simp add: stops_at_def stop_test_Cons_0)

lemma stops_at_Cons_Suc:
  "stops_at (f # rest) T (Suc i) = (\<not> fle (fsub T f) (Fin 0) \<and> stops_at rest (fsub T f) i)"
  by (auto simp: stops_at_def All_less_Suc2 stop_test_Cons_0 stop_test_Cons_Suc)

lemma walk_stops_at:
  "stops_at vals T i \<Longrightarrow> walk k vals T = (k + i, remaining vals T i)"
proof (induction vals arbitrary: i T k)
  case Nil
  then show ?case by (simp add: stops_at_def)
next
  case (Cons f rest)
  show ?case
  proof (cases i)
    case 0
    with Cons.prems show ?thesis by (simp add: stops_at_Cons_0 remaining_0)
  next
    case (Suc j)
    with Cons.prems have "\<not> fle (fsub T f) (Fin 0)" and "stops_at rest (fsub T f) j"
      by (simp_all add: stops_at_Cons_Suc)
    with Cons.IH [of "fsub T f" j "Suc k"] Suc show ?thesis
      by (simp add: remaining_Cons)
  qed
qed

lemma percentile_unfold:
  assumes "kind h \<in> set percentile_kinds" "fle (Fin 0) p" "fle p (Fin 100)"
      and "walk 0 (values_of (buckets h)) (target_count h p) = (i, r)"
  shows "percentile h p =
     (if i + 1 = length (buckets h) then Inr NaN
      else if length (buckets h) \<le> i then Inl IndexError
      else Inr (fadd (Fin (of_int (index_of (buckets h) ! i)))
             (fdiv (fmul (Fin (of_int (index_of (buckets h) ! (i + 1) - index_of (buckets h) ! i))) r)
                   (values_of (buckets h) ! i))))"
proof -
  have w: "walk 0 (values_of (buckets h))
             (fmul (fdiv p (Fin 100)) (series_sum (values_of (buckets h)))) = (i, r)"
    using assms(4) by (simp add: target_count_def)
  have len: "length (values_of (buckets h)) = length (buckets h)"
    by (simp add: values_of_def)
  have last: "(int i = int (length (buckets h)) - 1) = (i + 1 = length (buckets h))"
    by auto
  show ?thesis
    unfolding percentile_def Let_def w len
    using assms(1-3) last by simp
qed

lemmas percentile_example_defs =
  h_linear3_def target_count_def series_sum_def values_of_def index_of_def stops_at_def
  stop_test_def remaining_def fsub_def percentile_kinds_def




lemma fst_walk_single: "fst (walk k [v] T) = k"
  by simp

lemma fsub_zero: "fsub T (Fin 0) = T"
  by (cases T) (simp_all add: fsub_def)

lemma walk_zeros:
  "\<not> fle T (Fin 0) \<Longrightarrow> walk j (replicate k (Fin 0) @ rest) T = walk (j + k) rest T"
  by (induction k arbitrary: j) (simp_all add: fsub_zero)

lemma series_sum_zeros_last:
  assumes "v \<noteq> NaN"
  shows "series_sum (replicate k (Fin 0) @ [v]) = v"
proof -
  have "foldl fadd (Fin 0) (replicate k (Fin 0)) = Fin 0"
    by (induction k) simp_all
  moreover have "fadd (Fin 0) v = v" by (cases v) simp_all
  ultimately show ?thesis using assms by (simp add: series_sum_def)
qed

lemma target_nonneg:
  assumes "fle (Fin 0) p" "fle p (Fin 100)" "fle (Fin 0) v"
  shows "fmul (fdiv p (Fin 100)) v = Fin 0 \<or> \<not> fle (fmul (fdiv p (Fin 100)) v) (Fin 0)"
proof -
  from assms(1,2) obtain x where x: "p = Fin x" "0 \<le> x" by (cases p) auto
  show ?thesis
  proof (cases v)
    case (Fin c)
    with assms(3) have "0 \<le> c" by simp
    with x Fin show ?thesis by (auto simp: mult_le_0_iff)
  next
    case PInf
    with x show ?thesis by (cases "x = 0") auto
  next
    case NInf
    with assms(3) show ?thesis by simp
  next
    case NaN
    with assms(3) show ?thesis by simp
  qed
qed


text \<open>
  C6. For a histogram of a percentile kind and \<open>0 \<le> p \<le> 100\<close>: when the bucket at
  which the walk stops is the last one, \<open>percentile\<close> returns \<open>NaN\<close>; and it returns
  \<open>NaN\<close> whenever all the mass is in the last bucket (every other count is 0, the last
  one is not negative).
\<close>

theorem percentile_last_bucket_nan:
  assumes "kind h \<in> set percentile_kinds" and "fle (Fin 0) p" and "fle p (Fin 100)"
      and "buckets h \<noteq> []"
  shows "(stops_at (values_of (buckets h)) (target_count h p) (length (buckets h) - 1)
            \<longrightarrow> percentile h p = Inr NaN)
       \<and> ((\<forall>v \<in> set (butlast (values_of (buckets h))). v = Fin 0)
            \<and> fle (Fin 0) (last (values_of (buckets h)))
            \<longrightarrow> percentile h p = Inr NaN)"
proof (intro conjI impI)
  let ?vals = "values_of (buckets h)"
  let ?T = "target_count h p"
  obtain i r where w: "walk 0 ?vals ?T = (i, r)" by (cases "walk 0 ?vals ?T")
  note unfold = percentile_unfold [OF assms(1-3) w]
  {
    assume "stops_at ?vals ?T (length (buckets h) - 1)"
    from walk_stops_at [OF this, of 0] w have "i = length (buckets h) - 1" by simp
    with assms(4) unfold show "percentile h p = Inr NaN" by simp
  next
    assume a: "(\<forall>v \<in> set (butlast ?vals). v = Fin 0) \<and> fle (Fin 0) (last ?vals)"
    define k where "k = length (buckets h) - 1"
    define v where "v = last ?vals"
    have ne: "?vals \<noteq> []" using assms(4) by (simp add: values_of_def)
    have "length (butlast ?vals) = k" by (simp add: k_def values_of_def)
    moreover have "replicate (length (butlast ?vals)) (Fin 0) = butlast ?vals"
      using a by (intro replicate_length_same) simp
    ultimately have "butlast ?vals = replicate k (Fin 0)" by simp
    with ne have vals: "?vals = replicate k (Fin 0) @ [v]"
      unfolding v_def using append_butlast_last_id [of ?vals] by simp
    have v: "fle (Fin 0) v" using a by (simp add: v_def)
    then have "v \<noteq> NaN" by auto
    then have T: "?T = fmul (fdiv p (Fin 100)) v"
      unfolding target_count_def vals by (simp add: series_sum_zeros_last)
    have len: "length (buckets h) = Suc k" using assms(4) by (simp add: k_def)
    from target_nonneg [OF assms(2,3) v] T
    consider (zero) "?T = Fin 0" | (pos) "\<not> fle ?T (Fin 0)" by auto
    then show "percentile h p = Inr NaN"
    proof cases
      case zero
      show ?thesis
      proof (cases k)
        case 0
        with w vals have "i = 0" using fst_walk_single [of 0 v ?T] by simp
        with unfold len 0 show ?thesis by simp
      next
        case (Suc k')
        with w vals zero have "i = 0" "r = Fin 0" by (simp_all add: fsub_def)
        moreover have "?vals ! 0 = Fin 0" using vals Suc by simp
        ultimately show ?thesis using unfold len Suc by simp
      qed
    next
      case pos
      from walk_zeros [OF pos, of 0 k "[v]"] w vals have "i = k"
        using fst_walk_single [of k v ?T] by simp
      with unfold len show ?thesis by simp
    qed
  }
qed


theorem percentile_last_bucket_nan_witness:
  "stops_at (values_of (buckets (h_linear3 [Fin 0, Fin 0, Fin 3])))
      (target_count (h_linear3 [Fin 0, Fin 0, Fin 3]) (Fin 50)) 2
   \<and> percentile (h_linear3 [Fin 0, Fin 0, Fin 3]) (Fin 50) = Inr NaN
   \<and> percentile (h_linear3 [Fin 0, Fin 0, Fin 3]) (Fin 0) = Inr NaN"
  using percentile_last_bucket_nan [of "h_linear3 [Fin 0, Fin 0, Fin 3]" "Fin 50"]
        percentile_last_bucket_nan [of "h_linear3 [Fin 0, Fin 0, Fin 3]" "Fin 0"]
  by (simp add: percentile_example_defs less_Suc_eq numeral_2_eq_2)

section \<open>Monotonicity of percentile\<close>
















end
